theory Spec2Isabelle
  imports Main "HOL-Library.Word"
begin

unbundle bit_operations_syntax

section \<open>Data model\<close>

text \<open>
  Both programs (\<^verbatim>\<open>STR_CP2_Sistema_de_Dados_Robusto.c\<close> and \<^verbatim>\<open>hello_world_main.c\<close>) run four
  FreeRTOS tasks around one queue \<^verbatim>\<open>fila\<close> and one event group \<^verbatim>\<open>event_supervisor\<close>.
  A C \<^verbatim>\<open>int\<close> of the ESP32 is a 32-bit two's complement value: a \<open>32 word\<close>, read with
  \<open>sint\<close>. \<^verbatim>\<open>EventBits_t\<close> is a 32-bit mask.
\<close>

type_synonym c_int = "32 word"
type_synonym EventBits_t = "32 word"

definition BIT_TASK1_OK :: EventBits_t where
  "BIT_TASK1_OK = push_bit 0 1"

definition BIT_TASK1_FAIL :: EventBits_t where
  "BIT_TASK1_FAIL = push_bit 1 1"

definition BIT_TASK2_OK :: EventBits_t where
  "BIT_TASK2_OK = push_bit 2 1"

definition BIT_TASK2_TIMEOUT :: EventBits_t where
  "BIT_TASK2_TIMEOUT = push_bit 3 1"

definition BIT_TASK2_RESET :: EventBits_t where
  "BIT_TASK2_RESET = push_bit 4 1"

definition BIT_TASK2_RESTART :: EventBits_t where
  "BIT_TASK2_RESTART = push_bit 5 1"

text \<open>
  The lines the tasks print, by category (the identity prefix of each line is the only
  thing the two files format differently); a line that prints a value carries it.
\<close>

datatype log_line =
    FILA_CHEIA c_int
  | FILA_OK_ENVIADO c_int
  | ERROR_ALLOC
  | FILA_OK_RECEBEU c_int
  | TIMEOUT_LEVE
  | TIMEOUT_MODERADA
  | TIMEOUT_AGRESSIVA
  | SUPERVISOR_TASK1_OK
  | SUPERVISOR_TASK1_FAIL
  | SUPERVISOR_TASK2_OK
  | SUPERVISOR_TASK2_TIMEOUT
  | SUPERVISOR_TASK2_RESET
  | SUPERVISOR_TASK2_RESTART

text \<open>
  A task is a reactive program: what it reads from the outside are the results of its
  calls (\<^verbatim>\<open>malloc\<close>, \<^verbatim>\<open>xQueueSend\<close>, \<^verbatim>\<open>xQueueReceive\<close>, \<^verbatim>\<open>xEventGroupWaitBits\<close>), what it does
  to the outside is the sequence of calls it makes. One loop iteration is a function from
  the task's local variable and the results of its calls to the new local variable and the
  calls made, in program order. \<open>VTaskDelay\<close> carries the milliseconds given to
  \<^verbatim>\<open>pdMS_TO_TICKS\<close>; \<open>XEventGroupWaitBits\<close> carries the mask, \<^verbatim>\<open>xClearOnExit\<close>,
  \<^verbatim>\<open>xWaitForAllBits\<close> and the timeout in milliseconds.
\<close>

datatype call =
    Printf log_line
  | XQueueSend c_int
  | XQueueReceive
  | XQueueReset
  | XEventGroupSetBits EventBits_t
  | XEventGroupWaitBits EventBits_t bool bool nat
  | Malloc
  | Free
  | Esp_task_wdt_reset
  | VTaskDelay nat
  | Esp_restart

text \<open>\<^verbatim>\<open>esp_restart()\<close> does not return: the iteration that calls it ends the run.\<close>

datatype status = Running | Restarted

section \<open>Task1: the producer\<close>

text \<open>
  One iteration of \<^verbatim>\<open>Task1\<close>'s loop (the same in both files). \<open>sent\<close> is
  \<^verbatim>\<open>xQueueSend(fila, &value, 0) == pdTRUE\<close>. \<^verbatim>\<open>value++\<close> is the addition of the machine,
  which wraps at \<open>INT_MAX\<close> (where C leaves the signed overflow undefined).
\<close>

definition Task1 :: "bool \<Rightarrow> c_int \<Rightarrow> c_int \<times> call list" where
  "Task1 sent value =
     (let calls =
        [XQueueSend value] @
        (if \<not> sent
         then [Printf (FILA_CHEIA value), XEventGroupSetBits BIT_TASK1_FAIL]
         else [Printf (FILA_OK_ENVIADO value), XEventGroupSetBits BIT_TASK1_OK])
      in (value + 1, calls @ [Esp_task_wdt_reset, VTaskDelay 1000]))"

text \<open>
  The loop over the outcomes of its sends, one per iteration, from a value of the local
  variable: the final value and the calls of every iteration.
\<close>

fun Task1_loop :: "bool list \<Rightarrow> c_int \<Rightarrow> c_int \<times> call list list" where
  "Task1_loop [] value = (value, [])"
| "Task1_loop (sent # outcomes) value =
     (case Task1 sent value of
        (value', calls) \<Rightarrow>
          (case Task1_loop outcomes value' of
             (final, rest) \<Rightarrow> (final, calls # rest)))"

text \<open>The values a sequence of calls tries to send.\<close>

fun attempted :: "call list \<Rightarrow> c_int list" where
  "attempted [] = []"
| "attempted (XQueueSend v # cs) = v # attempted cs"
| "attempted (c # cs) = attempted cs"

section \<open>Task2: the consumer\<close>

text \<open>
  One iteration of \<^verbatim>\<open>Task2\<close>'s loop. \<open>ptr_ok\<close> is \<^verbatim>\<open>ptr != NULL\<close> after \<^verbatim>\<open>malloc\<close>;
  \<open>received\<close> is the value \<^verbatim>\<open>xQueueReceive(fila, ptr, 0)\<close> stored when it returned
  \<^verbatim>\<open>pdTRUE\<close>, and \<open>None\<close> when it did not (it is not called when the allocation failed);
  \<open>timeout\<close> is the local counter of consecutive misses.
\<close>

definition Task2_STR_CP2 ::
  "bool \<Rightarrow> c_int option \<Rightarrow> c_int \<Rightarrow> status \<times> c_int \<times> call list" where
  "Task2_STR_CP2 ptr_ok received timeout =
     (if \<not> ptr_ok
      then (Running, timeout, [Malloc, Printf ERROR_ALLOC, VTaskDelay 500])
      else
        (case received of
           Some v \<Rightarrow>
             (Running, 0,
              [Malloc, XQueueReceive, Printf (FILA_OK_RECEBEU v),
               XEventGroupSetBits BIT_TASK2_OK,
               Free, Esp_task_wdt_reset, VTaskDelay 500])
         | None \<Rightarrow>
             (let timeout = timeout + 1 in
              if timeout = 10 then
                (Running, timeout,
                 [Malloc, XQueueReceive, Printf TIMEOUT_LEVE,
                  XEventGroupSetBits BIT_TASK2_TIMEOUT,
                  Free, Esp_task_wdt_reset, VTaskDelay 500])
              else if timeout = 20 then
                (Running, 0,
                 [Malloc, XQueueReceive, Printf TIMEOUT_MODERADA, XQueueReset,
                  XEventGroupSetBits BIT_TASK2_RESET,
                  Free, Esp_task_wdt_reset, VTaskDelay 500])
              else if timeout = 30 then
                (Restarted, timeout,
                 [Malloc, XQueueReceive, Printf TIMEOUT_AGRESSIVA,
                  XEventGroupSetBits BIT_TASK2_RESTART,
                  Free, VTaskDelay 100, Esp_restart])
              else
                (Running, timeout,
                 [Malloc, XQueueReceive, Free, Esp_task_wdt_reset, VTaskDelay 500]))))"

definition Task2_hello_world ::
  "bool \<Rightarrow> c_int option \<Rightarrow> c_int \<Rightarrow> status \<times> c_int \<times> call list" where
  "Task2_hello_world ptr_ok received timeout =
     (if \<not> ptr_ok
      then (Running, timeout, [Malloc, Printf ERROR_ALLOC, VTaskDelay 500])
      else
        (case received of
           Some v \<Rightarrow>
             (Running, 0,
              [Malloc, XQueueReceive, Printf (FILA_OK_RECEBEU v),
               XEventGroupSetBits BIT_TASK2_OK,
               Free, Esp_task_wdt_reset, VTaskDelay 500])
         | None \<Rightarrow>
             (let timeout = timeout + 1 in
              if timeout = 10 then
                (Running, timeout,
                 [Malloc, XQueueReceive, Printf TIMEOUT_LEVE,
                  XEventGroupSetBits BIT_TASK2_TIMEOUT,
                  Free, Esp_task_wdt_reset, VTaskDelay 500])
              else if timeout = 20 then
                (Running, timeout,
                 [Malloc, XQueueReceive, Printf TIMEOUT_MODERADA, XQueueReset,
                  XEventGroupSetBits BIT_TASK2_RESET,
                  Free, Esp_task_wdt_reset, VTaskDelay 500])
              else if timeout = 30 then
                (Restarted, timeout,
                 [Malloc, XQueueReceive, Printf TIMEOUT_AGRESSIVA,
                  XEventGroupSetBits BIT_TASK2_RESTART,
                  Free, Esp_restart])
              else
                (Running, timeout,
                 [Malloc, XQueueReceive, Free, Esp_task_wdt_reset, VTaskDelay 500]))))"

text \<open>
  The loop of a consumer \<open>body\<close> over the outcomes of its iterations (allocation, receive):
  the status, counter and calls of every iteration, in order. The iteration that
  restarts the system is the last one.
\<close>

fun Task2_loop ::
  "(bool \<Rightarrow> c_int option \<Rightarrow> c_int \<Rightarrow> status \<times> c_int \<times> call list) \<Rightarrow>
   (bool \<times> c_int option) list \<Rightarrow> c_int \<Rightarrow> (status \<times> c_int \<times> call list) list" where
  "Task2_loop body [] timeout = []"
| "Task2_loop body ((ptr_ok, received) # outcomes) timeout =
     (case body ptr_ok received timeout of
        (Restarted, timeout', calls) \<Rightarrow> [(Restarted, timeout', calls)]
      | (Running, timeout', calls) \<Rightarrow>
          (Running, timeout', calls) # Task2_loop body outcomes timeout')"

section \<open>Task3: the supervisor\<close>

text \<open>
  One iteration of \<^verbatim>\<open>Task3\<close>'s loop (the same in both files). \<open>bits\<close> is what
  \<^verbatim>\<open>xEventGroupWaitBits\<close> returned; a C condition \<^verbatim>\<open>bits & BIT\<close> holds when the conjunction
  is not zero.
\<close>

definition Task3 :: "EventBits_t \<Rightarrow> call list" where
  "Task3 bits =
     [XEventGroupWaitBits
        (BIT_TASK1_OK OR BIT_TASK1_FAIL OR
         BIT_TASK2_OK OR BIT_TASK2_TIMEOUT OR BIT_TASK2_RESET OR BIT_TASK2_RESTART)
        True False 0] @
     (if bits AND BIT_TASK1_OK \<noteq> 0 then [Printf SUPERVISOR_TASK1_OK] else []) @
     (if bits AND BIT_TASK1_FAIL \<noteq> 0 then [Printf SUPERVISOR_TASK1_FAIL] else []) @
     (if bits AND BIT_TASK2_OK \<noteq> 0 then [Printf SUPERVISOR_TASK2_OK] else []) @
     (if bits AND BIT_TASK2_TIMEOUT \<noteq> 0 then [Printf SUPERVISOR_TASK2_TIMEOUT] else []) @
     (if bits AND BIT_TASK2_RESET \<noteq> 0 then [Printf SUPERVISOR_TASK2_RESET] else []) @
     (if bits AND BIT_TASK2_RESTART \<noteq> 0 then [Printf SUPERVISOR_TASK2_RESTART] else []) @
     [Esp_task_wdt_reset, VTaskDelay 2000]"

section \<open>Reading sequences of calls\<close>

text \<open>The lines a sequence of calls prints.\<close>

fun printed :: "call list \<Rightarrow> log_line list" where
  "printed [] = []"
| "printed (Printf l # cs) = l # printed cs"
| "printed (c # cs) = printed cs"

text \<open>The durations, in milliseconds, a sequence of calls sleeps.\<close>

fun delays :: "call list \<Rightarrow> nat list" where
  "delays [] = []"
| "delays (VTaskDelay ms # cs) = ms # delays cs"
| "delays (c # cs) = delays cs"

text \<open>The calls on the queue and on the event group, the two shared objects.\<close>

fun is_shared_op :: "call \<Rightarrow> bool" where
  "is_shared_op (XQueueSend v) = True"
| "is_shared_op XQueueReceive = True"
| "is_shared_op XQueueReset = True"
| "is_shared_op (XEventGroupSetBits b) = True"
| "is_shared_op (XEventGroupWaitBits m c a t) = True"
| "is_shared_op c = False"

definition shared_ops :: "call list \<Rightarrow> call list" where
  "shared_ops cs = filter is_shared_op cs"

text \<open>
  The recovery actions of the consumer: the flags it sets, the reset of the queue and the
  restart of the system.
\<close>

fun is_recovery :: "call \<Rightarrow> bool" where
  "is_recovery (XEventGroupSetBits b) = True"
| "is_recovery XQueueReset = True"
| "is_recovery Esp_restart = True"
| "is_recovery c = False"

definition recovery :: "call list \<Rightarrow> call list" where
  "recovery cs = filter is_recovery cs"

section \<open>The channel and the flag set\<close>

text \<open>
  Modelled from the spec: the queue functions of FreeRTOS (\<^verbatim>\<open>xQueueCreate\<close>, \<^verbatim>\<open>xQueueSend\<close>,
  \<^verbatim>\<open>xQueueReceive\<close>, \<^verbatim>\<open>xQueueReset\<close>) are called by the programs and are not among their
  sources. The spec's Channel is a bounded FIFO of integer records with a capacity fixed
  at construction.
\<close>

record channel =
  capacity :: nat
  items :: "c_int list"

text \<open>
  Modelled from the spec: \<^verbatim>\<open>xQueueCreate(C, sizeof(int))\<close>, the channel of capacity \<open>C\<close>,
  created empty.
\<close>

definition channel_create :: "nat \<Rightarrow> channel" where
  "channel_create C = \<lparr>capacity = C, items = []\<rparr>"

text \<open>
  Modelled from the spec: \<^verbatim>\<open>try_send(value) -> bool\<close> (\<^verbatim>\<open>xQueueSend\<close> with no wait):
  "returns false and leaves state unchanged if occupied count == C, else appends and
  returns true".
\<close>

definition try_send :: "c_int \<Rightarrow> channel \<Rightarrow> bool \<times> channel" where
  "try_send v ch =
     (if length (items ch) = capacity ch then (False, ch)
      else (True, ch\<lparr>items := items ch @ [v]\<rparr>))"

text \<open>
  Modelled from the spec: \<^verbatim>\<open>try_receive() -> optional<value>\<close> (\<^verbatim>\<open>xQueueReceive\<close> with no
  wait): "returns empty result if occupied count == 0, else removes and returns the
  oldest record".
\<close>

definition try_receive :: "channel \<Rightarrow> c_int option \<times> channel" where
  "try_receive ch =
     (case items ch of
        [] \<Rightarrow> (None, ch)
      | v # vs \<Rightarrow> (Some v, ch\<lparr>items := vs\<rparr>))"

text \<open>
  Modelled from the spec: \<^verbatim>\<open>reset()\<close> (\<^verbatim>\<open>xQueueReset\<close>): "discards all occupants immediately
  and unconditionally".
\<close>

definition channel_reset :: "channel \<Rightarrow> channel" where
  "channel_reset ch = ch\<lparr>items := []\<rparr>"

text \<open>A sequence of operations on a channel, applied from the left.\<close>

datatype channel_op = Try_send c_int | Try_receive | Reset

fun apply_op :: "channel_op \<Rightarrow> channel \<Rightarrow> channel" where
  "apply_op (Try_send v) ch = snd (try_send v ch)"
| "apply_op Try_receive ch = snd (try_receive ch)"
| "apply_op Reset ch = channel_reset ch"

fun apply_ops :: "channel_op list \<Rightarrow> channel \<Rightarrow> channel" where
  "apply_ops [] ch = ch"
| "apply_ops (op # ops) ch = apply_ops ops (apply_op op ch)"

text \<open>
  Modelled from the spec: \<^verbatim>\<open>set(flags)\<close> (\<^verbatim>\<open>xEventGroupSetBits\<close>): "merges the given bits into
  the shared mask via bitwise OR".
\<close>

definition flags_set :: "EventBits_t \<Rightarrow> EventBits_t \<Rightarrow> EventBits_t" where
  "flags_set bits flags = flags OR bits"

text \<open>
  Modelled from the spec: \<^verbatim>\<open>wait_any(mask, clear_on_exit, timeout=0)\<close> (\<^verbatim>\<open>xEventGroupWaitBits\<close>
  waiting for any bit, with no wait): "returns the subset of mask currently set"; "if
  clear_on_exit is true, exactly the returned bits are cleared atomically with the read".
  \<open>wanted\<close> is the spec's mask; the result is the returned bits and the flag set after the
  call.
\<close>

definition wait_any :: "EventBits_t \<Rightarrow> bool \<Rightarrow> EventBits_t \<Rightarrow> EventBits_t \<times> EventBits_t" where
  "wait_any wanted clear_on_exit flags =
     (let returned = flags AND wanted
      in (returned, if clear_on_exit then flags AND NOT returned else flags))"

section \<open>The tasks on the channel and the flag set\<close>

text \<open>
  \<^verbatim>\<open>app_main\<close> creates the queue: ten places in \<^verbatim>\<open>STR_CP2_Sistema_de_Dados_Robusto.c\<close>, one in
  \<^verbatim>\<open>hello_world_main.c\<close>.
\<close>

definition app_main_STR_CP2 :: channel where
  "app_main_STR_CP2 = channel_create 10"

definition app_main_hello_world :: channel where
  "app_main_hello_world = channel_create 1"

text \<open>An iteration of the producer on the channel: the send decides the branch.\<close>

definition Task1_on_channel :: "c_int \<Rightarrow> channel \<Rightarrow> channel \<times> c_int \<times> call list" where
  "Task1_on_channel value ch =
     (case try_send value ch of (sent, ch') \<Rightarrow> (ch', Task1 sent value))"

text \<open>
  An iteration of the supervisor on the flag set: it polls all six flags, clearing on
  exit, and prints from what the poll returned.
\<close>

definition Task3_on_flags :: "EventBits_t \<Rightarrow> EventBits_t \<times> call list" where
  "Task3_on_flags flags =
     (case wait_any
             (BIT_TASK1_OK OR BIT_TASK1_FAIL OR
              BIT_TASK2_OK OR BIT_TASK2_TIMEOUT OR BIT_TASK2_RESET OR BIT_TASK2_RESTART)
             True flags of
        (bits, flags') \<Rightarrow> (flags', Task3 bits))"

section \<open>Vocabulary of the properties\<close>

text \<open>The counters a run of the consumer's loop leaves, one per iteration.\<close>

definition counters :: "(status \<times> c_int \<times> call list) list \<Rightarrow> c_int list" where
  "counters rs = map (\<lambda>(st, timeout, calls). timeout) rs"

text \<open>The recovery actions of every iteration of a run, with the status it ends in.\<close>

definition recoveries :: "(status \<times> c_int \<times> call list) list \<Rightarrow> (status \<times> call list) list" where
  "recoveries rs = map (\<lambda>(st, timeout, calls). (st, recovery calls)) rs"

text \<open>The statuses and the calls of a run of the consumer's loop, iteration after iteration.\<close>

definition statuses :: "(status \<times> c_int \<times> call list) list \<Rightarrow> status list" where
  "statuses rs = map (\<lambda>(st, timeout, calls). st) rs"

definition calls_of :: "(status \<times> c_int \<times> call list) list \<Rightarrow> call list" where
  "calls_of rs = concat (map (\<lambda>(st, timeout, calls). calls) rs)"

text \<open>The six flags of the event group, and all of them as one mask.\<close>

definition flag_bits :: "EventBits_t list" where
  "flag_bits =
     [BIT_TASK1_OK, BIT_TASK1_FAIL, BIT_TASK2_OK, BIT_TASK2_TIMEOUT, BIT_TASK2_RESET,
      BIT_TASK2_RESTART]"

definition ALL_FLAGS :: EventBits_t where
  "ALL_FLAGS =
     BIT_TASK1_OK OR BIT_TASK1_FAIL OR
     BIT_TASK2_OK OR BIT_TASK2_TIMEOUT OR BIT_TASK2_RESET OR BIT_TASK2_RESTART"

section \<open>Helper lemmas\<close>

lemmas BIT_defs =
  BIT_TASK1_OK_def BIT_TASK1_FAIL_def BIT_TASK2_OK_def
  BIT_TASK2_TIMEOUT_def BIT_TASK2_RESET_def BIT_TASK2_RESTART_def

lemma replicate_numeral: "replicate (numeral k) x = x # replicate (pred_numeral k) x"
  by (simp add: numeral_eq_Suc)

lemma upt_1_31:
  "[1..<31] =
     [1, 2, 3, 4, 5, 6, 7, 8, 9, 10, 11, 12, 13, 14, 15, 16, 17, 18, 19, 20,
      21, 22, 23, 24, 25, 26, 27, 28, 29, 30 :: nat]"
  by code_simp

lemma printed_append: "printed (xs @ ys) = printed xs @ printed ys"
  by (induction xs rule: printed.induct) simp_all

lemma attempted_append: "attempted (xs @ ys) = attempted xs @ attempted ys"
  by (induction xs rule: attempted.induct) simp_all

lemma sint_small:
  fixes w :: "32 word"
  assumes "uint w < 2 ^ 31"
  shows "sint w = uint w"
proof -
  have "- (2 ^ 31) \<le> uint w"
    by (rule order_trans [of _ 0]) simp_all
  with assms show ?thesis
    by (simp add: sint_uint signed_take_bit_int_eq_self)
qed

lemma below_20_sint:
  fixes t :: c_int
  assumes "t < 20"
  shows "0 \<le> sint t \<and> sint t < 20"
proof -
  from assms have u: "uint t < 20" by (simp add: word_less_def)
  then have "sint t = uint t" by (intro sint_small) simp
  with u show ?thesis by simp
qed

lemma below_20_next:
  fixes t :: c_int
  assumes "t < 20"
  shows "t + 1 \<noteq> 30" and "t + 1 \<noteq> 20 \<Longrightarrow> t + 1 < 20"
  using assms by unat_arith+

lemma sint_of_nat_small: "n < 2 ^ 31 \<Longrightarrow> sint (of_nat n :: c_int) = int n"
  by (simp add: signed_of_nat signed_take_bit_int_eq_self)

lemma sint_next:
  fixes v :: c_int
  assumes ne: "v \<noteq> 0x7FFFFFFF"
  shows "sint (v + 1) = sint v + 1"
proof -
  have "sint v \<noteq> 2147483647"
  proof
    assume "sint v = 2147483647"
    then have "word_of_int (sint v) = (word_of_int 2147483647 :: c_int)" by simp
    then have "v = 0x7FFFFFFF" by simp
    with ne show False by simp
  qed
  moreover have "sint v < 2 ^ 31" using sint_lt [of v] by simp
  moreover have "- (2 ^ 31) \<le> sint v" using sint_ge [of v] by simp
  ultimately have "- (2 ^ 31) \<le> sint v + 1 \<and> sint v + 1 < 2 ^ 31" by simp
  then show ?thesis
    by (simp add: sint_word_add signed_take_bit_int_eq_self)
qed

section \<open>The consumer resets its counter on a successful receive\<close>

text \<open>
  C3. Whatever the counter of consecutive misses was, an iteration of the consumer whose
  receive succeeds ends with the counter at 0 (below 10, the first threshold), in both
  files, and goes on running.
\<close>

theorem C3_receive_resets_counter:
  "Task2_STR_CP2 True (Some v) timeout =
     (Running, 0,
      [Malloc, XQueueReceive, Printf (FILA_OK_RECEBEU v), XEventGroupSetBits BIT_TASK2_OK,
       Free, Esp_task_wdt_reset, VTaskDelay 500]) \<and>
   Task2_hello_world True (Some v) timeout =
     (Running, 0,
      [Malloc, XQueueReceive, Printf (FILA_OK_RECEBEU v), XEventGroupSetBits BIT_TASK2_OK,
       Free, Esp_task_wdt_reset, VTaskDelay 500])"
  by (simp add: Task2_STR_CP2_def Task2_hello_world_def)

section \<open>The escalation of the consumer on an empty channel\<close>

text \<open>
  C1 (amended). Thirty consecutive iterations of the consumer, from a counter of 0, with
  every allocation succeeding and every receive failing (the channel stays empty).
  In \<^verbatim>\<open>hello_world_main.c\<close> the recovery actions are exactly: \<open>BIT_TASK2_TIMEOUT\<close> at
  iteration 10, the reset of the queue with \<open>BIT_TASK2_RESET\<close> at iteration 20,
  \<open>BIT_TASK2_RESTART\<close> with the restart at iteration 30, and none at any other iteration.
  In \<^verbatim>\<open>STR_CP2_Sistema_de_Dados_Robusto.c\<close>, which puts the counter back to 0 at 20, they
  are: \<open>BIT_TASK2_TIMEOUT\<close> at iterations 10 and 30, the reset of the queue with
  \<open>BIT_TASK2_RESET\<close> at iteration 20, none at any other iteration, and no restart.
\<close>

theorem C1_escalation_sequence:
  "recoveries (Task2_loop Task2_hello_world (replicate 30 (True, None)) 0) =
     map (\<lambda>k. if k = 10 then (Running, [XEventGroupSetBits BIT_TASK2_TIMEOUT])
               else if k = 20 then (Running, [XQueueReset, XEventGroupSetBits BIT_TASK2_RESET])
               else if k = 30 then (Restarted, [XEventGroupSetBits BIT_TASK2_RESTART, Esp_restart])
               else (Running, []))
       [1..<31] \<and>
   recoveries (Task2_loop Task2_STR_CP2 (replicate 30 (True, None)) 0) =
     map (\<lambda>k. if k = 10 then (Running, [XEventGroupSetBits BIT_TASK2_TIMEOUT])
               else if k = 20 then (Running, [XQueueReset, XEventGroupSetBits BIT_TASK2_RESET])
               else if k = 30 then (Running, [XEventGroupSetBits BIT_TASK2_TIMEOUT])
               else (Running, []))
       [1..<31]"
  unfolding upt_1_31
  by (simp add: replicate_numeral recoveries_def recovery_def Let_def
      Task2_hello_world_def Task2_STR_CP2_def)

text \<open>
  The claim as stated fails on \<^verbatim>\<open>STR_CP2_Sistema_de_Dados_Robusto.c\<close>: its thirtieth
  iteration finds the counter at 10 again, sets \<open>BIT_TASK2_TIMEOUT\<close> and goes on running.
\<close>

theorem C1_STR_CP2_counterexample:
  "Task2_loop Task2_STR_CP2 (replicate 30 (True, None)) 0 ! 29 =
     (Running, 10,
      [Malloc, XQueueReceive, Printf TIMEOUT_LEVE, XEventGroupSetBits BIT_TASK2_TIMEOUT,
       Free, Esp_task_wdt_reset, VTaskDelay 500])"
  by (simp add: replicate_numeral Task2_STR_CP2_def Let_def)

section \<open>The iteration whose allocation fails\<close>

text \<open>
  C2 (amended). In an iteration of the consumer whose allocation fails, in both files,
  the consumer prints the allocation error, sleeps 500 ms once (the duration of its main
  period), touches neither the queue nor the event group, leaves the counter of misses
  as it was and goes on to the next iteration.
\<close>

theorem C2_allocation_failure:
  "fst (Task2_STR_CP2 False received timeout) = Running \<and>
   fst (snd (Task2_STR_CP2 False received timeout)) = timeout \<and>
   printed (snd (snd (Task2_STR_CP2 False received timeout))) = [ERROR_ALLOC] \<and>
   delays (snd (snd (Task2_STR_CP2 False received timeout))) = [500] \<and>
   shared_ops (snd (snd (Task2_STR_CP2 False received timeout))) = [] \<and>
   fst (Task2_hello_world False received timeout) = Running \<and>
   fst (snd (Task2_hello_world False received timeout)) = timeout \<and>
   printed (snd (snd (Task2_hello_world False received timeout))) = [ERROR_ALLOC] \<and>
   delays (snd (snd (Task2_hello_world False received timeout))) = [500] \<and>
   shared_ops (snd (snd (Task2_hello_world False received timeout))) = [] \<and>
   delays (snd (snd (Task2_STR_CP2 True (Some v) timeout))) = [500] \<and>
   delays (snd (snd (Task2_hello_world True (Some v) timeout))) = [500]"
  by (simp add: Task2_STR_CP2_def Task2_hello_world_def shared_ops_def)

text \<open>
  The claim as stated fails: the sleep after a failed allocation is the 500 ms of the
  main period, not a different duration, and it is all the iteration does after printing.
\<close>

theorem C2_backoff_counterexample:
  "Task2_STR_CP2 False None 0 = (Running, 0, [Malloc, Printf ERROR_ALLOC, VTaskDelay 500]) \<and>
   Task2_hello_world False None 0 = (Running, 0, [Malloc, Printf ERROR_ALLOC, VTaskDelay 500]) \<and>
   last (snd (snd (Task2_STR_CP2 True (Some 0) 0))) = VTaskDelay 500 \<and>
   last (snd (snd (Task2_hello_world True (Some 0) 0))) = VTaskDelay 500"
  by (simp add: Task2_STR_CP2_def Task2_hello_world_def)

section \<open>The channel\<close>

lemma channel_bounded_step:
  "length (items ch) \<le> capacity ch \<Longrightarrow>
   length (items (apply_op op ch)) \<le> capacity (apply_op op ch) \<and>
   capacity (apply_op op ch) = capacity ch"
  by (cases op) (auto simp: try_send_def try_receive_def channel_reset_def split: list.splits)

lemma channel_bounded_ops:
  "length (items ch) \<le> capacity ch \<Longrightarrow>
   length (items (apply_ops ops ch)) \<le> capacity ch \<and>
   capacity (apply_ops ops ch) = capacity ch"
proof (induction ops arbitrary: ch)
  case Nil
  then show ?case by simp
next
  case (Cons op ops)
  from channel_bounded_step [OF Cons.prems, of op]
  have step: "length (items (apply_op op ch)) \<le> capacity (apply_op op ch)"
    and cap: "capacity (apply_op op ch) = capacity ch"
    by simp_all
  from Cons.IH [OF step] cap show ?case by simp
qed

text \<open>
  C4. After any sequence of sends, receives and resets on a channel created with capacity
  \<open>C\<close>, the number of occupants is between 0 and \<open>C\<close> (and the capacity is still \<open>C\<close>):
  at most 10 on the queue \<^verbatim>\<open>app_main\<close> creates in \<^verbatim>\<open>STR_CP2_Sistema_de_Dados_Robusto.c\<close>, at
  most 1 on the one of \<^verbatim>\<open>hello_world_main.c\<close>.
\<close>

theorem C4_occupied_within_capacity:
  "0 \<le> length (items (apply_ops ops (channel_create C))) \<and>
   length (items (apply_ops ops (channel_create C))) \<le> C \<and>
   capacity (apply_ops ops (channel_create C)) = C \<and>
   length (items (apply_ops ops app_main_STR_CP2)) \<le> 10 \<and>
   length (items (apply_ops ops app_main_hello_world)) \<le> 1"
  using channel_bounded_ops [of "channel_create C" ops]
    channel_bounded_ops [of "channel_create 10" ops]
    channel_bounded_ops [of "channel_create 1" ops]
  by (simp add: channel_create_def app_main_STR_CP2_def app_main_hello_world_def)

text \<open>
  C6. On a channel whose number of occupants equals its capacity, \<open>try_send\<close> returns false
  and leaves the channel as it was, and the producer's iteration on it signals the
  failure; on any other channel it returns true with the value appended at the tail, and
  the producer's iteration signals the success.
\<close>

theorem C6_try_send:
  "(length (items ch) = capacity ch \<longrightarrow>
      try_send v ch = (False, ch) \<and>
      Task1_on_channel v ch = (ch, Task1 False v)) \<and>
   (length (items ch) \<noteq> capacity ch \<longrightarrow>
      try_send v ch = (True, ch\<lparr>items := items ch @ [v]\<rparr>) \<and>
      Task1_on_channel v ch = (ch\<lparr>items := items ch @ [v]\<rparr>, Task1 True v))"
  by (simp add: try_send_def Task1_on_channel_def)

theorem C6_try_send_witness:
  "try_send 8 \<lparr>capacity = 1, items = [7]\<rparr> = (False, \<lparr>capacity = 1, items = [7]\<rparr>) \<and>
   try_send 8 (channel_create 1) = (True, \<lparr>capacity = 1, items = [8]\<rparr>) \<and>
   try_send 8 \<lparr>capacity = 10, items = [7]\<rparr> = (True, \<lparr>capacity = 10, items = [7, 8]\<rparr>)"
  using C6_try_send [of "\<lparr>capacity = 1, items = [7]\<rparr>" 8]
    C6_try_send [of "channel_create 1" 8]
    C6_try_send [of "\<lparr>capacity = 10, items = [7]\<rparr>" 8]
  by (simp add: channel_create_def)

section \<open>The flag set\<close>

text \<open>
  C5. For every flag set and every mask, \<open>wait_any\<close> with clear-on-exit returns the bits
  of the mask that are set, and the flag set it leaves is the old one without exactly
  the returned bits: no returned bit is left, the bits left together with the returned
  ones are the old flag set, the bits outside the mask are as before, and no bit that
  was clear is set. So the supervisor's poll, whose mask is the six flags, leaves none of
  the six and every other bit as it was.
\<close>

theorem C5_wait_any_clears_returned:
  "fst (wait_any wanted True flags) = flags AND wanted \<and>
   snd (wait_any wanted True flags) AND fst (wait_any wanted True flags) = 0 \<and>
   snd (wait_any wanted True flags) OR fst (wait_any wanted True flags) = flags \<and>
   snd (wait_any wanted True flags) AND NOT wanted = flags AND NOT wanted \<and>
   snd (wait_any wanted True flags) AND NOT flags = 0 \<and>
   (\<forall>n. bit (snd (wait_any wanted True flags)) n =
        (bit flags n \<and> \<not> bit (fst (wait_any wanted True flags)) n)) \<and>
   fst (Task3_on_flags flags) = snd (wait_any ALL_FLAGS True flags) \<and>
   fst (Task3_on_flags flags) AND ALL_FLAGS = 0 \<and>
   fst (Task3_on_flags flags) AND NOT ALL_FLAGS = flags AND NOT ALL_FLAGS"
proof -
  have general:
    "fst (wait_any w True flags) = flags AND w \<and>
     snd (wait_any w True flags) AND fst (wait_any w True flags) = 0 \<and>
     snd (wait_any w True flags) OR fst (wait_any w True flags) = flags \<and>
     snd (wait_any w True flags) AND NOT w = flags AND NOT w \<and>
     snd (wait_any w True flags) AND NOT flags = 0 \<and>
     snd (wait_any w True flags) AND w = 0 \<and>
     (\<forall>n. bit (snd (wait_any w True flags)) n =
          (bit flags n \<and> \<not> bit (fst (wait_any w True flags)) n))" for w
    unfolding wait_any_def Let_def fst_conv snd_conv
    by (auto simp: bit_eq_iff bit_simps dest: bit_imp_le_length)
  have poll: "fst (Task3_on_flags flags) = snd (wait_any ALL_FLAGS True flags)"
    by (simp add: Task3_on_flags_def ALL_FLAGS_def case_prod_beta)
  show ?thesis
    unfolding poll using general [of wanted] general [of ALL_FLAGS] by blast
qed

section \<open>The producer's value\<close>

lemma Task1_loop_values:
  "fst (Task1_loop outcomes v) = v + of_nat (length outcomes) \<and>
   attempted (concat (snd (Task1_loop outcomes v))) =
     map (\<lambda>k. v + of_nat k) [0..<length outcomes]"
proof (induction outcomes arbitrary: v)
  case Nil
  then show ?case by simp
next
  case (Cons sent outcomes)
  have step: "fst (Task1 sent v) = v + 1"
    and sends: "attempted (snd (Task1 sent v)) = [v]"
    by (simp_all add: Task1_def)
  obtain final rest where rest: "Task1_loop outcomes (v + 1) = (final, rest)"
    by (cases "Task1_loop outcomes (v + 1)")
  from Cons.IH [of "v + 1"] rest
  have final: "final = v + 1 + of_nat (length outcomes)"
    and att: "attempted (concat rest) = map (\<lambda>k. v + 1 + of_nat k) [0..<length outcomes]"
    by simp_all
  have loop: "Task1_loop (sent # outcomes) v = (final, snd (Task1 sent v) # rest)"
    using step rest by (simp add: case_prod_beta)
  have shift: "[0..<length (sent # outcomes)] = 0 # map Suc [0..<length outcomes]"
    by (simp add: upt_conv_Cons map_Suc_upt del: upt_Suc)
  show ?case
    unfolding loop shift
    by (simp add: final att sends attempted_append comp_def add.assoc add.commute)
qed

text \<open>
  C7 (amended). In every iteration of the producer, whether the send succeeded or the
  channel was full, the value tried is the current one and the next value is the current
  one plus 1 in the 32-bit arithmetic of \<^verbatim>\<open>int\<close>: one more as an integer unless the value
  is \<open>INT_MAX\<close>. From 0, the values tried over any sequence of outcomes are 0, 1, 2, ...
  (as 32-bit values), whatever the outcomes were, and over at most \<open>2 ^ 31\<close> iterations
  they are the integers 0, 1, 2, ... themselves, strictly increasing.
\<close>

theorem C7_value_increments:
  "fst (Task1 sent value) = value + 1 \<and>
   attempted (snd (Task1 sent value)) = [value] \<and>
   (value \<noteq> 0x7FFFFFFF \<longrightarrow> sint (fst (Task1 sent value)) = sint value + 1) \<and>
   attempted (concat (snd (Task1_loop outcomes 0))) = map of_nat [0..<length outcomes] \<and>
   (length outcomes \<le> 2 ^ 31 \<longrightarrow>
      map sint (attempted (concat (snd (Task1_loop outcomes 0)))) =
        map int [0..<length outcomes] \<and>
      sorted_wrt (<) (map sint (attempted (concat (snd (Task1_loop outcomes 0))))))"
proof -
  have one: "fst (Task1 sent value) = value + 1"
    and tried: "attempted (snd (Task1 sent value)) = [value]"
    by (simp_all add: Task1_def)
  have all: "attempted (concat (snd (Task1_loop outcomes 0))) = map of_nat [0..<length outcomes]"
    using Task1_loop_values [of outcomes 0] by simp
  have ints: "map sint (attempted (concat (snd (Task1_loop outcomes 0)))) =
      map int [0..<length outcomes]" if "length outcomes \<le> 2 ^ 31"
  proof -
    have "sint (of_nat k :: c_int) = int k" if "k \<in> set [0..<length outcomes]" for k
      using that \<open>length outcomes \<le> 2 ^ 31\<close> by (intro sint_of_nat_small) simp
    then show ?thesis
      unfolding all by (simp add: comp_def)
  qed
  have incr: "sorted_wrt (<) (map sint (attempted (concat (snd (Task1_loop outcomes 0)))))"
    if "length outcomes \<le> 2 ^ 31"
    unfolding ints [OF that] by (simp add: sorted_wrt_map)
  have signed: "sint (fst (Task1 sent value)) = sint value + 1" if "value \<noteq> 0x7FFFFFFF"
    unfolding one using that by (rule sint_next)
  from one tried all ints incr signed show ?thesis
    by blast
qed

theorem C7_value_increments_witness:
  "sint (fst (Task1 False 5)) = 6 \<and>
   map sint (attempted (concat (snd (Task1_loop [True, False, False, True] 0)))) =
     [0, 1, 2, 3]"
  using C7_value_increments [of False 5 "[True, False, False, True]"]
  by (simp add: upt_conv_Cons)

text \<open>
  The claim as stated fails at \<open>INT_MAX\<close>, the value the producer holds after 2147483647
  iterations whatever the outcomes of its sends: no \<^verbatim>\<open>int\<close> is one more than \<open>INT_MAX\<close>, and
  the next value is \<open>INT_MIN\<close>, which is smaller.
\<close>

theorem C7_overflow_counterexample:
  "fst (Task1_loop (replicate 2147483647 False) 0) = 2147483647 \<and>
   sint (2147483647 :: c_int) = 2147483647 \<and>
   sint (fst (Task1 False 2147483647)) = - 2147483648 \<and>
   sint (fst (Task1 True 2147483647)) = - 2147483648"
  using Task1_loop_values [of "replicate 2147483647 False" 0]
  by (simp add: Task1_def)

section \<open>The consumer of STR_CP2 never restarts\<close>

lemma STR_CP2_step_below_20:
  assumes "timeout < 20"
  shows "fst (Task2_STR_CP2 ptr_ok received timeout) = Running \<and>
         fst (snd (Task2_STR_CP2 ptr_ok received timeout)) < 20 \<and>
         Esp_restart \<notin> set (snd (snd (Task2_STR_CP2 ptr_ok received timeout))) \<and>
         XEventGroupSetBits BIT_TASK2_RESTART \<notin>
           set (snd (snd (Task2_STR_CP2 ptr_ok received timeout)))"
  using assms below_20_next [OF assms]
  by (auto simp: Task2_STR_CP2_def Let_def BIT_defs split: option.splits)

lemma STR_CP2_loop_below_20:
  assumes "timeout < 20"
  shows "length (Task2_loop Task2_STR_CP2 outcomes timeout) = length outcomes \<and>
         (\<forall>r \<in> set (Task2_loop Task2_STR_CP2 outcomes timeout).
            fst r = Running \<and> fst (snd r) < 20 \<and>
            Esp_restart \<notin> set (snd (snd r)) \<and>
            XEventGroupSetBits BIT_TASK2_RESTART \<notin> set (snd (snd r)))"
  using assms
proof (induction outcomes arbitrary: timeout)
  case Nil
  then show ?case by simp
next
  case (Cons outcome outcomes)
  obtain ptr_ok received where outcome: "outcome = (ptr_ok, received)"
    by (cases outcome)
  obtain st t' calls where step: "Task2_STR_CP2 ptr_ok received timeout = (st, t', calls)"
    by (cases "Task2_STR_CP2 ptr_ok received timeout")
  from STR_CP2_step_below_20 [OF Cons.prems, of ptr_ok received] step
  have facts: "st = Running" "t' < 20" "Esp_restart \<notin> set calls"
    "XEventGroupSetBits BIT_TASK2_RESTART \<notin> set calls"
    by simp_all
  from Cons.IH [OF facts(2)] facts show ?case
    by (simp add: outcome step)
qed

lemma below_20_incremented:
  fixes t :: c_int
  assumes "t < 20"
  shows "0 \<le> sint t \<and> sint t < 20 \<and> sint (t + 1) \<le> 20 \<and> t + 1 \<noteq> 30"
proof -
  have "sint (t + 1) \<le> 20"
  proof (cases "t + 1 = 20")
    case True
    then show ?thesis by simp
  next
    case False
    from below_20_sint [OF below_20_next(2) [OF assms False]] show ?thesis by simp
  qed
  with below_20_sint [OF assms] below_20_next(1) [OF assms] show ?thesis by simp
qed

text \<open>
  C8. In \<^verbatim>\<open>STR_CP2_Sistema_de_Dados_Robusto.c\<close>, over any sequence of allocation and receive
  outcomes from a counter of 0, the consumer's loop never stops; the counter is in
  [0, 19] at the start of every iteration, so at most 20 and never 30 after
  \<^verbatim>\<open>timeout++\<close>; and no iteration restarts the system or sets \<open>BIT_TASK2_RESTART\<close>.
\<close>

theorem C8_restart_unreachable:
  "length (Task2_loop Task2_STR_CP2 outcomes 0) = length outcomes \<and>
   Restarted \<notin> set (statuses (Task2_loop Task2_STR_CP2 outcomes 0)) \<and>
   list_all (\<lambda>t. 0 \<le> sint t \<and> sint t < 20 \<and> sint (t + 1) \<le> 20 \<and> t + 1 \<noteq> 30)
     (0 # counters (Task2_loop Task2_STR_CP2 outcomes 0)) \<and>
   Esp_restart \<notin> set (calls_of (Task2_loop Task2_STR_CP2 outcomes 0)) \<and>
   XEventGroupSetBits BIT_TASK2_RESTART \<notin> set (calls_of (Task2_loop Task2_STR_CP2 outcomes 0))"
proof -
  have zero: "(0 :: c_int) < 20" by simp
  note run = STR_CP2_loop_below_20 [OF zero, of outcomes]
  have "list_all (\<lambda>t. t < 20) (0 # counters (Task2_loop Task2_STR_CP2 outcomes 0))"
    using run by (auto simp: counters_def list_all_iff)
  then have bounds:
    "list_all (\<lambda>t. 0 \<le> sint t \<and> sint t < 20 \<and> sint (t + 1) \<le> 20 \<and> t + 1 \<noteq> 30)
       (0 # counters (Task2_loop Task2_STR_CP2 outcomes 0))"
    unfolding list_all_iff using below_20_incremented by blast
  have running: "Restarted \<notin> set (statuses (Task2_loop Task2_STR_CP2 outcomes 0))"
    using run by (auto simp: statuses_def)
  have calls:
    "Esp_restart \<notin> set (calls_of (Task2_loop Task2_STR_CP2 outcomes 0))"
    "XEventGroupSetBits BIT_TASK2_RESTART \<notin> set (calls_of (Task2_loop Task2_STR_CP2 outcomes 0))"
    using run by (auto simp: calls_of_def)
  from run bounds running calls show ?thesis by blast
qed

section \<open>The two consumers below the second threshold\<close>






section \<open>The supervisor's lines\<close>

lemma no_flag_each:
  assumes "bits AND ALL_FLAGS = 0"
  shows "bits AND BIT_TASK1_OK = 0" "bits AND BIT_TASK1_FAIL = 0" "bits AND BIT_TASK2_OK = 0"
    "bits AND BIT_TASK2_TIMEOUT = 0" "bits AND BIT_TASK2_RESET = 0"
    "bits AND BIT_TASK2_RESTART = 0"
  using assms
  by (simp_all add: ALL_FLAGS_def bit.conj_disj_distrib or_eq_0_iff)

text \<open>
  C10. In every iteration of the supervisor, each of the six status lines is printed
  once if its flag is among the bits the poll returned and not at all otherwise, in the
  order of the flags, so the lines printed are as many as the flags present; bits with
  none of the six flags print nothing. On the flag set, the bits are the flags set at the
  poll, and a flag set with none of the six flags gives an iteration that prints nothing.
\<close>

theorem C10_one_line_per_flag:
  "count_list (printed (Task3 bits)) SUPERVISOR_TASK1_OK =
     (if bits AND BIT_TASK1_OK \<noteq> 0 then 1 else 0) \<and>
   count_list (printed (Task3 bits)) SUPERVISOR_TASK1_FAIL =
     (if bits AND BIT_TASK1_FAIL \<noteq> 0 then 1 else 0) \<and>
   count_list (printed (Task3 bits)) SUPERVISOR_TASK2_OK =
     (if bits AND BIT_TASK2_OK \<noteq> 0 then 1 else 0) \<and>
   count_list (printed (Task3 bits)) SUPERVISOR_TASK2_TIMEOUT =
     (if bits AND BIT_TASK2_TIMEOUT \<noteq> 0 then 1 else 0) \<and>
   count_list (printed (Task3 bits)) SUPERVISOR_TASK2_RESET =
     (if bits AND BIT_TASK2_RESET \<noteq> 0 then 1 else 0) \<and>
   count_list (printed (Task3 bits)) SUPERVISOR_TASK2_RESTART =
     (if bits AND BIT_TASK2_RESTART \<noteq> 0 then 1 else 0) \<and>
   length (printed (Task3 bits)) = length (filter (\<lambda>b. bits AND b \<noteq> 0) flag_bits) \<and>
   (bits AND ALL_FLAGS = 0 \<longrightarrow> printed (Task3 bits) = []) \<and>
   printed (snd (Task3_on_flags fs)) = printed (Task3 (fs AND ALL_FLAGS)) \<and>
   (fs AND ALL_FLAGS = 0 \<longrightarrow> printed (snd (Task3_on_flags fs)) = [])"
proof -
  have lines: "printed (Task3 b) =
     (if b AND BIT_TASK1_OK \<noteq> 0 then [SUPERVISOR_TASK1_OK] else []) @
     (if b AND BIT_TASK1_FAIL \<noteq> 0 then [SUPERVISOR_TASK1_FAIL] else []) @
     (if b AND BIT_TASK2_OK \<noteq> 0 then [SUPERVISOR_TASK2_OK] else []) @
     (if b AND BIT_TASK2_TIMEOUT \<noteq> 0 then [SUPERVISOR_TASK2_TIMEOUT] else []) @
     (if b AND BIT_TASK2_RESET \<noteq> 0 then [SUPERVISOR_TASK2_RESET] else []) @
     (if b AND BIT_TASK2_RESTART \<noteq> 0 then [SUPERVISOR_TASK2_RESTART] else [])" for b
    by (simp add: Task3_def printed_append)
  have counts:
    "count_list (printed (Task3 bits)) SUPERVISOR_TASK1_OK =
       (if bits AND BIT_TASK1_OK \<noteq> 0 then 1 else 0)"
    "count_list (printed (Task3 bits)) SUPERVISOR_TASK1_FAIL =
       (if bits AND BIT_TASK1_FAIL \<noteq> 0 then 1 else 0)"
    "count_list (printed (Task3 bits)) SUPERVISOR_TASK2_OK =
       (if bits AND BIT_TASK2_OK \<noteq> 0 then 1 else 0)"
    "count_list (printed (Task3 bits)) SUPERVISOR_TASK2_TIMEOUT =
       (if bits AND BIT_TASK2_TIMEOUT \<noteq> 0 then 1 else 0)"
    "count_list (printed (Task3 bits)) SUPERVISOR_TASK2_RESET =
       (if bits AND BIT_TASK2_RESET \<noteq> 0 then 1 else 0)"
    "count_list (printed (Task3 bits)) SUPERVISOR_TASK2_RESTART =
       (if bits AND BIT_TASK2_RESTART \<noteq> 0 then 1 else 0)"
    unfolding lines by simp_all
  have total: "length (printed (Task3 bits)) =
      length (filter (\<lambda>b. bits AND b \<noteq> 0) flag_bits)"
    unfolding lines flag_bits_def by simp
  have none: "printed (Task3 b) = []" if "b AND ALL_FLAGS = 0" for b
    unfolding lines using no_flag_each [OF that] by simp
  have poll: "Task3_on_flags fs = (fs AND NOT (fs AND ALL_FLAGS), Task3 (fs AND ALL_FLAGS))"
    by (simp add: Task3_on_flags_def wait_any_def ALL_FLAGS_def Let_def)
  have masked: "fs AND ALL_FLAGS AND ALL_FLAGS = fs AND ALL_FLAGS"
    by (simp add: and.assoc)
  have polled: "printed (snd (Task3_on_flags fs)) = printed (Task3 (fs AND ALL_FLAGS))"
    unfolding poll by simp
  have quiet: "printed (snd (Task3_on_flags fs)) = []" if "fs AND ALL_FLAGS = 0"
    unfolding polled using none [of "fs AND ALL_FLAGS"] masked that by simp
  from counts total none [of bits] polled quiet show ?thesis
    by blast
qed

theorem C10_one_line_per_flag_witness:
  "(0 :: EventBits_t) AND ALL_FLAGS = 0 \<and>
   printed (Task3 0) = [] \<and>
   printed (snd (Task3_on_flags 0)) = [] \<and>
   count_list (printed (Task3 (BIT_TASK1_FAIL OR BIT_TASK2_OK))) SUPERVISOR_TASK2_OK = 1 \<and>
   length (printed (Task3 (BIT_TASK1_FAIL OR BIT_TASK2_OK))) = 2"
  using C10_one_line_per_flag [of 0 0]
    C10_one_line_per_flag [of "BIT_TASK1_FAIL OR BIT_TASK2_OK" 0]
  by (simp add: BIT_defs flag_bits_def)

end
